theory Spec2Isabelle
  imports Complex_Main "HOL-Library.Sublist" "HOL-Library.Multiset"
begin

section \<open>Data model of cerca.py\<close>

text \<open>
  \<open>LatLong\<close> is the named tuple of the source, in decimal degrees. Python floats are
  modelled as real numbers throughout: rounding, infinities and NaN are outside the model.
\<close>

record LatLong =
  latitude :: real
  longitude :: real

text \<open>
  A \<open>Station\<close> as \<open>Station.fromElementTree\<close> builds it: every field is present,
  \<open>slots\<close> and \<open>bikes\<close> are Python ints.
\<close>

record Station =
  st_coords :: LatLong
  slots :: int
  bikes :: int
  street :: string
  number :: string

text \<open>
  \<open>datetime.strptime(s, '%d/%m/%Y')\<close> yields a datetime at midnight, so two of them are
  equal exactly when day, month and year agree. The optional hour is a time of day.
\<close>

datatype pydate = Date (d_day: nat) (d_month: nat) (d_year: nat)

datatype pytime = Time (t_hour: nat) (t_minute: nat)

text \<open>
  An \<open>Event\<close> as \<open>Event.fromElementTree\<close> builds it: the three text fields are strings,
  \<open>hour\<close> and \<open>coords\<close> may be \<open>None\<close>. The two result lists hold
  \<open>(station, distance)\<close> tuples.
\<close>

record Event =
  name :: string
  address :: string
  date :: pydate
  hour :: "pytime option"
  place :: string
  coords :: "LatLong option"
  stations_with_bikes :: "(Station \<times> real) list"
  stations_with_slots :: "(Station \<times> real) list"

text \<open>
  \<open>Event.__init__\<close>, called with the six keyword arguments \<open>fromElementTree\<close> passes:
  the allowed keys are stored and both result lists start empty.
\<close>

definition Event_init ::
  "pydate \<Rightarrow> pytime option \<Rightarrow> string \<Rightarrow> string \<Rightarrow> string \<Rightarrow> LatLong option \<Rightarrow> Event" where
  "Event_init dt hr nm pl ad co =
     \<lparr>name = nm, address = ad, date = dt, hour = hr, place = pl, coords = co,
      stations_with_bikes = [], stations_with_slots = []\<rparr>"

text \<open>
  The search terms are what \<open>ast.literal_eval\<close> returns: a Python literal. \<open>check_event\<close>
  tells a \<open>str\<close>, a \<open>list\<close> and a \<open>tuple\<close> apart with \<open>isinstance\<close>; the other
  constructors stand for the literals that are none of the three (numbers, booleans,
  \<open>None\<close>; bytes, dicts and sets take the same branch).
\<close>

datatype pyval =
    Str string
  | PyList "pyval list"
  | PyTuple "pyval list"
  | PyInt int
  | PyBool bool
  | PyNone

section \<open>The query matcher\<close>

text \<open>
  Python's \<open>t in s\<close> on two strings: \<open>t\<close> occurs in \<open>s\<close> as a contiguous run of
  characters, compared one by one. The empty string occurs in every string.
\<close>

fun py_in :: "string \<Rightarrow> string \<Rightarrow> bool" where
  "py_in t [] = (t = [])"
| "py_in t (c # s) = (prefix t (c # s) \<or> py_in t s)"

text \<open>
  \<open>check_event\<close>: the two \<open>for\<close> loops with their early \<open>return\<close> are the functions
  \<open>check_conj\<close> and \<open>check_disj\<close>; the last equations are the final \<open>return False\<close>.
\<close>

fun check_event :: "Event \<Rightarrow> pyval \<Rightarrow> bool"
  and check_conj :: "Event \<Rightarrow> pyval list \<Rightarrow> bool"
  and check_disj :: "Event \<Rightarrow> pyval list \<Rightarrow> bool" where
  "check_event event (Str search_terms) =
     (py_in search_terms (name event) \<or> py_in search_terms (place event)
      \<or> py_in search_terms (address event))"
| "check_event event (PyList search_terms) = check_conj event search_terms"
| "check_event event (PyTuple search_terms) = check_disj event search_terms"
| "check_event event (PyInt n) = False"
| "check_event event (PyBool b) = False"
| "check_event event PyNone = False"
| "check_conj event [] = True"
| "check_conj event (elem # rest) =
     (if \<not> check_event event elem then False else check_conj event rest)"
| "check_disj event [] = False"
| "check_disj event (elem # rest) =
     (if check_event event elem then True else check_disj event rest)"

subsection \<open>The matcher of the specification\<close>

text \<open>
  The specification's expression type and its reference semantics, written from the
  specification's words: a term is a substring of one of the three text fields, a
  conjunction holds when all children hold, a disjunction when some child holds.
\<close>

datatype SearchExpression =
    Term string
  | Conjunction "SearchExpression list"
  | Disjunction "SearchExpression list"

definition is_substring :: "string \<Rightarrow> string \<Rightarrow> bool" where
  "is_substring t s = (\<exists>before after. s = before @ t @ after)"

fun matches_spec :: "Event \<Rightarrow> SearchExpression \<Rightarrow> bool" where
  "matches_spec event (Term t) =
     (is_substring t (name event) \<or> is_substring t (place event)
      \<or> is_substring t (address event))"
| "matches_spec event (Conjunction cs) = (\<forall>c \<in> set cs. matches_spec event c)"
| "matches_spec event (Disjunction cs) = (\<exists>c \<in> set cs. matches_spec event c)"

text \<open>How the command line writes an expression: a string, a list, a tuple.\<close>

fun to_literal :: "SearchExpression \<Rightarrow> pyval" where
  "to_literal (Term t) = Str t"
| "to_literal (Conjunction cs) = PyList (map to_literal cs)"
| "to_literal (Disjunction cs) = PyTuple (map to_literal cs)"

section \<open>The geodistance calculator\<close>

text \<open>
  The only exception the core can raise by itself: \<open>math.sqrt\<close> raises \<open>ValueError\<close> on
  a negative argument.
\<close>

datatype error = ValueError

definition math_radians :: "real \<Rightarrow> real" where
  "math_radians x = x * (pi / 180)"

definition math_sqrt :: "real \<Rightarrow> error + real" where
  "math_sqrt x = (if x < 0 then Inl ValueError else Inr (sqrt x))"

text \<open>\<open>math.atan2(y, x)\<close>: the angle of the point \<open>(x, y)\<close>, in \<open>(-\<pi>, \<pi>]\<close>.\<close>

definition math_atan2 :: "real \<Rightarrow> real \<Rightarrow> real" where
  "math_atan2 y x =
     (if 0 < x then arctan (y / x)
      else if x < 0 \<and> 0 \<le> y then arctan (y / x) + pi
      else if x < 0 then arctan (y / x) - pi
      else if 0 < y then pi / 2
      else if y < 0 then - (pi / 2)
      else 0)"

definition earth_radius :: real where
  "earth_radius = 6371000"

text \<open>
  \<open>haversine_distance\<close>, line by line. The two square roots are taken in the order the
  source takes them, and the first one that raises ends the call.
\<close>

definition haversine_distance :: "LatLong \<Rightarrow> LatLong \<Rightarrow> error + real" where
  "haversine_distance origin destination =
     (let o_lon = math_radians (longitude origin);
          o_lat = math_radians (latitude origin);
          d_lon = math_radians (longitude destination);
          d_lat = math_radians (latitude destination);
          delta_lat = math_radians (latitude destination - latitude origin);
          delta_long = math_radians (longitude destination - longitude origin);
          a = (sin (delta_lat / 2))\<^sup>2 + cos o_lat * cos d_lat * (sin (delta_long / 2))\<^sup>2
      in case math_sqrt a of
           Inl e \<Rightarrow> Inl e
         | Inr root_a \<Rightarrow>
             (case math_sqrt (1 - a) of
                Inl e \<Rightarrow> Inl e
              | Inr root_b \<Rightarrow> Inr (earth_radius * (2 * math_atan2 root_a root_b))))"

section \<open>The nearest-station ranker\<close>

text \<open>
  The inner \<open>for station in stations\<close> loop of \<open>set_nearest_stations\<close>, for an event
  whose coordinates are \<open>c\<close>. The event is passed along and returned with the tuples
  appended; an exception of \<open>haversine_distance\<close> ends the loop.
\<close>

fun stations_loop :: "LatLong \<Rightarrow> Event \<Rightarrow> Station list \<Rightarrow> real \<Rightarrow> error + Event" where
  "stations_loop c event [] max_distance = Inr event"
| "stations_loop c event (station # rest) max_distance =
     (case haversine_distance c (st_coords station) of
        Inl e \<Rightarrow> Inl e
      | Inr distance \<Rightarrow>
          stations_loop c
            (if distance \<le> max_distance then
               (if 0 < slots station then
                  event\<lparr>stations_with_slots := stations_with_slots event @ [(station, distance)]\<rparr>
                else if 0 < bikes station then
                  event\<lparr>stations_with_bikes := stations_with_bikes event @ [(station, distance)]\<rparr>
                else event)
             else event)
            rest max_distance)"

text \<open>
  \<open>set_nearest_stations\<close>: the events are distinct objects (each one is built by
  \<open>Event.fromElementTree\<close>), so the in-place mutation is the list of the updated events.
  \<open>list.sort(key=lambda e: e[1])\<close> is a stable sort on the distance, as \<open>sort_key snd\<close> is.
\<close>

fun set_nearest_stations :: "Event list \<Rightarrow> Station list \<Rightarrow> real \<Rightarrow> error + Event list" where
  "set_nearest_stations [] stations max_distance = Inr []"
| "set_nearest_stations (event # events) stations max_distance =
     (case coords event of
        None \<Rightarrow>
          (case set_nearest_stations events stations max_distance of
             Inl e \<Rightarrow> Inl e
           | Inr events' \<Rightarrow> Inr (event # events'))
      | Some c \<Rightarrow>
          (case stations_loop c event stations max_distance of
             Inl e \<Rightarrow> Inl e
           | Inr event' \<Rightarrow>
               (case set_nearest_stations events stations max_distance of
                  Inl e \<Rightarrow> Inl e
                | Inr events' \<Rightarrow>
                    Inr (event'\<lparr>stations_with_slots := sort_key snd (stations_with_slots event'),
                                stations_with_bikes := sort_key snd (stations_with_bikes event')\<rparr>
                         # events'))))"

section \<open>The pipeline\<close>

text \<open>
  The feeds are read from the network and decoded by \<open>ElementTree\<close>; the model starts
  from the decoded elements. An \<open>acte\<close> holds what \<open>Event.fromElementTree\<close> extracts from
  one \<open>acte\<close> element before it calls the constructor.
\<close>

record acte =
  a_date :: pydate
  a_hour :: "pytime option"
  a_name :: string
  a_place :: string
  a_address :: string
  a_coords :: "LatLong option"

definition Event_fromElementTree :: "acte \<Rightarrow> Event" where
  "Event_fromElementTree tree =
     Event_init (a_date tree) (a_hour tree) (a_name tree) (a_place tree) (a_address tree)
       (a_coords tree)"

text \<open>The loop of \<open>find_monthly_events\<close>, with \<open>res\<close> as it grows.\<close>

fun find_monthly_loop :: "acte list \<Rightarrow> pyval \<Rightarrow> pydate \<Rightarrow> Event list \<Rightarrow> Event list" where
  "find_monthly_loop [] search_terms dt res = res"
| "find_monthly_loop (event_tree # rest) search_terms dt res =
     (let event = Event_fromElementTree event_tree in
      if date event = dt \<and> check_event event search_terms
      then find_monthly_loop rest search_terms dt (res @ [event])
      else find_monthly_loop rest search_terms dt res)"

definition find_monthly_events :: "acte list \<Rightarrow> pyval \<Rightarrow> pydate \<Rightarrow> Event list" where
  "find_monthly_events feed search_terms dt = find_monthly_loop feed search_terms dt []"

fun find_today_loop :: "acte list \<Rightarrow> pyval \<Rightarrow> Event list \<Rightarrow> Event list" where
  "find_today_loop [] search_terms res = res"
| "find_today_loop (event_tree # rest) search_terms res =
     (let event = Event_fromElementTree event_tree in
      if check_event event search_terms
      then find_today_loop rest search_terms (res @ [event])
      else find_today_loop rest search_terms res)"

definition find_today_events :: "acte list \<Rightarrow> pyval \<Rightarrow> Event list" where
  "find_today_events feed search_terms = find_today_loop feed search_terms []"

text \<open>
  The parsed command line (\<open>--key\<close> after \<open>ast.literal_eval\<close>, \<open>--distance\<close>, \<open>--date\<close>
  after \<open>strptime\<close>, absent when the option is not given) and the three feeds.
\<close>

record Args =
  key :: pyval
  distance :: int
  date_arg :: "pydate option"

record Feeds =
  monthly_feed :: "acte list"
  today_feed :: "acte list"
  bicing_feed :: "Station list"

text \<open>\<open>main\<close>: the result is the list of events handed to \<open>write_html\<close>.\<close>

definition main :: "Args \<Rightarrow> Feeds \<Rightarrow> error + Event list" where
  "main args feeds =
     (let search_terms = key args in
      case date_arg args of
        Some dt \<Rightarrow> Inr (find_monthly_events (monthly_feed feeds) search_terms dt)
      | None \<Rightarrow>
          (let events = find_today_events (today_feed feeds) search_terms;
               stations = bicing_feed feeds
           in set_nearest_stations events stations (real_of_int (distance args))))"

section \<open>Auxiliary notions for the statements\<close>

text \<open>
  The value \<open>a\<close> of \<open>haversine_distance\<close> and the distance it returns when neither square
  root raises.
\<close>

definition hav_a :: "LatLong \<Rightarrow> LatLong \<Rightarrow> real" where
  "hav_a p q =
     (sin (math_radians (latitude q - latitude p) / 2))\<^sup>2
     + cos (math_radians (latitude p)) * cos (math_radians (latitude q))
       * (sin (math_radians (longitude q - longitude p) / 2))\<^sup>2"

definition great_circle :: "LatLong \<Rightarrow> LatLong \<Rightarrow> real" where
  "great_circle p q =
     earth_radius * (2 * math_atan2 (sqrt (hav_a p q)) (sqrt (1 - hav_a p q)))"

text \<open>The three kinds of literal \<open>check_event\<close> recognises.\<close>

definition is_expression_kind :: "pyval \<Rightarrow> bool" where
  "is_expression_kind x =
     (case x of Str t \<Rightarrow> True | PyList xs \<Rightarrow> True | PyTuple xs \<Rightarrow> True | _ \<Rightarrow> False)"

text \<open>
  What one pass over the stations appends for an event at \<open>c\<close>: the stations in range
  with a free slot, and the stations in range with no free slot and a bike, each in the
  order of the station list and paired with its distance. \<open>rank_event\<close> is the effect of
  \<open>set_nearest_stations\<close> on one event.
\<close>

definition new_slots :: "LatLong \<Rightarrow> Station list \<Rightarrow> real \<Rightarrow> (Station \<times> real) list" where
  "new_slots c stations max_distance =
     map (\<lambda>s. (s, great_circle c (st_coords s)))
       (filter (\<lambda>s. great_circle c (st_coords s) \<le> max_distance \<and> 0 < slots s) stations)"

definition new_bikes :: "LatLong \<Rightarrow> Station list \<Rightarrow> real \<Rightarrow> (Station \<times> real) list" where
  "new_bikes c stations max_distance =
     map (\<lambda>s. (s, great_circle c (st_coords s)))
       (filter (\<lambda>s. great_circle c (st_coords s) \<le> max_distance \<and> \<not> 0 < slots s \<and> 0 < bikes s)
          stations)"

definition rank_event :: "Station list \<Rightarrow> real \<Rightarrow> Event \<Rightarrow> Event" where
  "rank_event stations max_distance event =
     (case coords event of
        None \<Rightarrow> event
      | Some c \<Rightarrow>
          event\<lparr>stations_with_slots :=
                  sort_key snd (stations_with_slots event @ new_slots c stations max_distance),
                stations_with_bikes :=
                  sort_key snd (stations_with_bikes event @ new_bikes c stations max_distance)\<rparr>)"

text \<open>
  The classification the ranker keeps: every entry of \<open>stations_with_slots\<close> is a station
  with a free slot, every entry of \<open>stations_with_bikes\<close> a station with no free slot and
  a bike. Both lists of a new event are empty, so it holds for a new event.
\<close>

definition by_priority :: "Event \<Rightarrow> bool" where
  "by_priority event =
     (list_all (\<lambda>e. 0 < slots (fst e)) (stations_with_slots event)
      \<and> list_all (\<lambda>e. \<not> 0 < slots (fst e) \<and> 0 < bikes (fst e)) (stations_with_bikes event))"

subsection \<open>Sample data\<close>

definition festa_major :: Event where
  "festa_major =
     Event_init (Date 23 6 2018) None ''Gran Festa Major'' ''Placa Major'' ''Carrer Gran 1'' None"

definition sant_jordi :: Event where
  "sant_jordi =
     Event_init (Date 23 4 2018) (Some (Time 10 30)) ''Festa de Sant Jordi'' ''La Rambla''
       ''La Rambla 1'' None"

definition barcelona :: LatLong where
  "barcelona = \<lparr>latitude = 41.3851, longitude = 2.1734\<rparr>"

definition station_a :: Station where
  "station_a = \<lparr>st_coords = barcelona, slots = 3, bikes = 0, street = ''Gran Via'', number = ''1''\<rparr>"

text \<open>The same three text fields as \<open>festa_major\<close>, everything else different.\<close>

definition festa_major_ranked :: Event where
  "festa_major_ranked =
     \<lparr>name = ''Gran Festa Major'', address = ''Carrer Gran 1'', date = Date 24 6 2018,
      hour = Some (Time 21 0), place = ''Placa Major'', coords = Some barcelona,
      stations_with_bikes = [], stations_with_slots = [(station_a, 0)]\<rparr>"

definition north_pole :: LatLong where
  "north_pole = \<lparr>latitude = 90, longitude = 0\<rparr>"

definition south_pole :: LatLong where
  "south_pole = \<lparr>latitude = - 90, longitude = 0\<rparr>"

definition south_station :: Station where
  "south_station =
     \<lparr>st_coords = south_pole, slots = 1, bikes = 0, street = ''Amundsen'', number = ''1''\<rparr>"

definition polar_event :: Event where
  "polar_event =
     Event_init (Date 1 1 2019) None ''Expedicio'' ''Pol Nord'' ''Pol Nord'' (Some north_pole)"

definition polar_ranked :: Event where
  "polar_ranked = polar_event\<lparr>stations_with_slots := [(south_station, earth_radius * pi)]\<rparr>"

definition station_b :: Station where
  "station_b = \<lparr>st_coords = barcelona, slots = 0, bikes = 2, street = ''Gran Via'', number = ''2''\<rparr>"

definition station_c :: Station where
  "station_c = \<lparr>st_coords = barcelona, slots = 0, bikes = 0, street = ''Gran Via'', number = ''3''\<rparr>"

definition concert :: Event where
  "concert =
     Event_init (Date 3 11 2018) (Some (Time 20 0)) ''Concert Jove'' ''Sala Gran'' ''Carrer Nou 2''
       (Some barcelona)"

definition concert_ranked :: Event where
  "concert_ranked =
     concert\<lparr>stations_with_bikes := [(station_b, 0)], stations_with_slots := [(station_a, 0)]\<rparr>"

definition concert_ranked_twice :: Event where
  "concert_ranked_twice =
     concert\<lparr>stations_with_bikes := [(station_b, 0), (station_b, 0)],
             stations_with_slots := [(station_a, 0), (station_a, 0)]\<rparr>"

definition acte_festa :: acte where
  "acte_festa =
     \<lparr>a_date = Date 23 6 2018, a_hour = None, a_name = ''Gran Festa Major'',
      a_place = ''Placa Major'', a_address = ''Carrer Gran 1'', a_coords = Some barcelona\<rparr>"

definition acte_fira :: acte where
  "acte_fira =
     \<lparr>a_date = Date 23 6 2018, a_hour = Some (Time 11 0), a_name = ''Fira d'Art'',
      a_place = ''Moll'', a_address = ''Moll de la Fusta'', a_coords = None\<rparr>"

definition acte_festa_later :: acte where
  "acte_festa_later =
     \<lparr>a_date = Date 24 6 2018, a_hour = None, a_name = ''Festa de Sant Joan'',
      a_place = ''Platja'', a_address = ''Passeig Maritim'', a_coords = Some barcelona\<rparr>"

definition acte_concert :: acte where
  "acte_concert =
     \<lparr>a_date = Date 23 6 2018, a_hour = Some (Time 22 0), a_name = ''Concert de Festa'',
      a_place = ''Sala Gran'', a_address = ''Carrer Nou 2'', a_coords = Some barcelona\<rparr>"

definition sample_feeds :: Feeds where
  "sample_feeds =
     \<lparr>monthly_feed = [acte_festa, acte_fira, acte_festa_later, acte_concert],
      today_feed = [acte_festa_later],
      bicing_feed = [station_a, station_b, station_c]\<rparr>"

definition date_args :: Args where
  "date_args = \<lparr>key = Str ''Festa'', distance = 300, date_arg = Some (Date 23 6 2018)\<rparr>"

definition equator :: LatLong where
  "equator = \<lparr>latitude = 0, longitude = 0\<rparr>"

definition station_equator_1 :: Station where
  "station_equator_1 =
     \<lparr>st_coords = equator, slots = 2, bikes = 4, street = ''Equador'', number = ''1''\<rparr>"

definition station_equator_2 :: Station where
  "station_equator_2 =
     \<lparr>st_coords = equator, slots = 5, bikes = 0, street = ''Equador'', number = ''2''\<rparr>"

definition station_north :: Station where
  "station_north =
     \<lparr>st_coords = north_pole, slots = 1, bikes = 1, street = ''Pol Nord'', number = ''1''\<rparr>"

definition station_equator_bikes :: Station where
  "station_equator_bikes =
     \<lparr>st_coords = equator, slots = 0, bikes = 3, street = ''Equador'', number = ''3''\<rparr>"

definition station_north_bikes :: Station where
  "station_north_bikes =
     \<lparr>st_coords = north_pole, slots = 0, bikes = 1, street = ''Pol Nord'', number = ''2''\<rparr>"

definition polar_stations :: "Station list" where
  "polar_stations =
     [station_equator_1, south_station, station_equator_2, station_north,
      station_equator_bikes, station_north_bikes]"

definition polar_ranked_wide :: Event where
  "polar_ranked_wide =
     polar_event
       \<lparr>stations_with_bikes :=
          [(station_north_bikes, 0), (station_equator_bikes, earth_radius * (pi / 2))],
        stations_with_slots :=
          [(station_north, 0), (station_equator_1, earth_radius * (pi / 2)),
           (station_equator_2, earth_radius * (pi / 2))]\<rparr>"

section \<open>Properties of the matcher\<close>

lemma py_in_is_substring: "py_in t s = is_substring t s"
proof (induction s)
  case Nil
  show ?case by (simp add: is_substring_def)
next
  case (Cons c s)
  have "is_substring t (c # s) = sublist t (c # s)"
    by (simp add: is_substring_def sublist_def)
  also have "\<dots> = (prefix t (c # s) \<or> sublist t s)"
    by (rule sublist_Cons_right)
  also have "sublist t s = is_substring t s"
    by (simp add: is_substring_def sublist_def)
  finally show ?case using Cons.IH by simp
qed

lemma check_conj_all: "check_conj event xs = (\<forall>x \<in> set xs. check_event event x)"
  by (induction xs) simp_all

lemma check_disj_ex: "check_disj event xs = (\<exists>x \<in> set xs. check_event event x)"
  by (induction xs) simp_all

lemma check_same_text_fields:
  "name e1 = name e2 \<Longrightarrow> place e1 = place e2 \<Longrightarrow> address e1 = address e2 \<Longrightarrow>
   check_event e1 x = check_event e2 x"
  "name e1 = name e2 \<Longrightarrow> place e1 = place e2 \<Longrightarrow> address e1 = address e2 \<Longrightarrow>
   check_conj e1 xs = check_conj e2 xs"
  "name e1 = name e2 \<Longrightarrow> place e1 = place e2 \<Longrightarrow> address e1 = address e2 \<Longrightarrow>
   check_disj e1 xs = check_disj e2 xs"
  by (induction e1 x and e1 xs and e1 xs rule: check_event_check_conj_check_disj.induct)
    simp_all

text \<open>
  Claim C1 says that a node which is neither a string, a list nor a tuple makes the
  matcher fail with an error. The source ends with \<open>return False\<close> instead: on
  \<open>None\<close> the matcher returns the ordinary boolean \<open>False\<close>.
\<close>

theorem check_event_None_returns_False: "check_event festa_major PyNone = False"
  by simp

text \<open>
  Claim C1, amended: for every event, a node that is neither a string, a list nor a
  tuple makes \<open>check_event\<close> return \<open>False\<close>; no error is raised.
\<close>

theorem check_event_other_kind:
  "\<not> is_expression_kind x \<Longrightarrow> check_event event x = False"
  by (cases x) (simp_all add: is_expression_kind_def)

theorem check_event_other_kind_witness:
  "\<not> is_expression_kind (PyInt 7) \<and> check_event sant_jordi (PyInt 7) = False"
proof -
  have h: "\<not> is_expression_kind (PyInt 7)"
    by (simp add: is_expression_kind_def)
  from check_event_other_kind [OF h, of sant_jordi] h show ?thesis
    by blast
qed

text \<open>
  Claim C2: on every event and every expression built from terms, conjunctions and
  disjunctions, \<open>check_event\<close> computes the reference semantics: a term holds when it is
  a substring (character by character, nothing normalised) of the name, the place or the
  address; a conjunction holds when all children hold, the empty one included; a
  disjunction holds when some child holds, so the empty one does not.
\<close>

theorem check_event_refines_spec:
  "check_event event (to_literal e) = matches_spec event e"
proof (induction e)
  case (Term t)
  show ?case by (simp add: py_in_is_substring)
next
  case (Conjunction cs)
  then show ?case by (simp add: check_conj_all)
next
  case (Disjunction cs)
  then show ?case by (simp add: check_disj_ex)
qed

theorem check_event_refines_spec_witness:
  "matches_spec festa_major (Conjunction [Term ''Festa'', Term ''Major''])
   \<and> \<not> matches_spec sant_jordi (Conjunction [Term ''Festa'', Term ''Major''])
   \<and> matches_spec sant_jordi (Disjunction [Term ''Concert'', Term ''Festa''])
   \<and> matches_spec sant_jordi (Conjunction [])
   \<and> \<not> matches_spec sant_jordi (Disjunction [])"
proof -
  have 1: "check_event festa_major (to_literal (Conjunction [Term ''Festa'', Term ''Major'']))"
    by (simp add: festa_major_def Event_init_def)
  have 2: "\<not> check_event sant_jordi (to_literal (Conjunction [Term ''Festa'', Term ''Major'']))"
    by (simp add: sant_jordi_def Event_init_def)
  have 3: "check_event sant_jordi (to_literal (Disjunction [Term ''Concert'', Term ''Festa'']))"
    by (simp add: sant_jordi_def Event_init_def)
  have 4: "check_event sant_jordi (to_literal (Conjunction []))"
    by simp
  have 5: "\<not> check_event sant_jordi (to_literal (Disjunction []))"
    by simp
  from 1 2 3 4 5 show ?thesis
    unfolding check_event_refines_spec by blast
qed

text \<open>
  Claim C6: the matcher is monotonic. Adding to a disjunction, at any position, a
  sub-expression that matches the event keeps a true result true; removing from a
  conjunction, at any position, a sub-expression that matches the event keeps a false
  result false.
\<close>

theorem check_event_monotonic:
  "(check_event event t \<and> check_event event (PyTuple (ys @ zs))
      \<longrightarrow> check_event event (PyTuple (ys @ t # zs)))
   \<and> (check_event event t \<and> \<not> check_event event (PyList (ys @ t # zs))
      \<longrightarrow> \<not> check_event event (PyList (ys @ zs)))"
  by (auto simp: check_conj_all check_disj_ex)

theorem check_event_monotonic_witness:
  "check_event festa_major (Str ''Festa'')
   \<and> check_event festa_major (PyTuple ([Str ''Major''] @ [Str ''Fira'']))
   \<and> check_event festa_major (PyTuple ([Str ''Major''] @ Str ''Festa'' # [Str ''Fira'']))
   \<and> \<not> check_event festa_major (PyList ([Str ''Major''] @ Str ''Festa'' # [Str ''Fira'']))
   \<and> \<not> check_event festa_major (PyList ([Str ''Major''] @ [Str ''Fira'']))"
proof -
  have t: "check_event festa_major (Str ''Festa'')"
    by (simp add: festa_major_def Event_init_def)
  have d: "check_event festa_major (PyTuple ([Str ''Major''] @ [Str ''Fira'']))"
    by (simp add: festa_major_def Event_init_def)
  have c: "\<not> check_event festa_major (PyList ([Str ''Major''] @ Str ''Festa'' # [Str ''Fira'']))"
    by (simp add: festa_major_def Event_init_def)
  from check_event_monotonic [of festa_major "Str ''Festa''" "[Str ''Major'']" "[Str ''Fira'']"]
    t d c show ?thesis
    by blast
qed

text \<open>
  Claim C10: the result of the matcher depends on the name, the place and the address
  of the event only. Two events that agree on these three fields get the same result on
  every search expression, whatever their date, hour, coordinates and result lists.
\<close>

theorem check_event_text_fields_only:
  "name e1 = name e2 \<and> place e1 = place e2 \<and> address e1 = address e2
   \<longrightarrow> check_event e1 x = check_event e2 x"
  using check_same_text_fields(1) [of e1 e2 x] by blast

theorem check_event_text_fields_only_witness:
  "name festa_major = name festa_major_ranked
   \<and> place festa_major = place festa_major_ranked
   \<and> address festa_major = address festa_major_ranked
   \<and> date festa_major \<noteq> date festa_major_ranked
   \<and> coords festa_major \<noteq> coords festa_major_ranked
   \<and> stations_with_slots festa_major \<noteq> stations_with_slots festa_major_ranked
   \<and> check_event festa_major (PyList [Str ''Festa'', PyTuple [Str ''Gran'', Str ''Fira'']])
     = check_event festa_major_ranked (PyList [Str ''Festa'', PyTuple [Str ''Gran'', Str ''Fira'']])"
proof -
  have f: "name festa_major = name festa_major_ranked
      \<and> place festa_major = place festa_major_ranked
      \<and> address festa_major = address festa_major_ranked"
    by (simp add: festa_major_def festa_major_ranked_def Event_init_def)
  have g: "date festa_major \<noteq> date festa_major_ranked
      \<and> coords festa_major \<noteq> coords festa_major_ranked
      \<and> stations_with_slots festa_major \<noteq> stations_with_slots festa_major_ranked"
    by (simp add: festa_major_def festa_major_ranked_def Event_init_def)
  from check_event_text_fields_only
         [of festa_major festa_major_ranked
             "PyList [Str ''Festa'', PyTuple [Str ''Gran'', Str ''Fira'']]"]
    f g show ?thesis
    by blast
qed

section \<open>Properties of the geodistance calculator\<close>

lemma sin_half_squared:
  fixes z :: real
  shows "(sin (z / 2))\<^sup>2 = (1 - cos z) / 2"
proof -
  have "cos z = cos (2 * (z / 2))" by simp
  also have "\<dots> = 1 - 2 * (sin (z / 2))\<^sup>2" by (rule cos_double_sin)
  finally show ?thesis by simp
qed

lemma hav_bounds_aux:
  fixes x y s :: real
  assumes "0 \<le> s" "s \<le> 1"
  shows "0 \<le> (sin ((y - x) / 2))\<^sup>2 + cos x * cos y * s"
    and "(sin ((y - x) / 2))\<^sup>2 + cos x * cos y * s \<le> 1"
proof -
  have p: "cos x * cos y = (cos (y - x) + cos (y + x)) / 2"
    by (simp add: cos_diff cos_add)
  have e: "(sin ((y - x) / 2))\<^sup>2 + cos x * cos y * s
        = (1 - (1 - s) * cos (y - x) + s * cos (y + x)) / 2"
    unfolding sin_half_squared p by (simp add: field_simps)
  have c1: "(1 - s) * cos (y - x) \<le> (1 - s) * 1"
    using assms by (intro mult_left_mono) simp_all
  have c2: "(1 - s) * (- 1) \<le> (1 - s) * cos (y - x)"
    using assms by (intro mult_left_mono) simp_all
  have c3: "s * cos (y + x) \<le> s * 1"
    using assms by (intro mult_left_mono) simp_all
  have c4: "s * (- 1) \<le> s * cos (y + x)"
    using assms by (intro mult_left_mono) simp_all
  show "0 \<le> (sin ((y - x) / 2))\<^sup>2 + cos x * cos y * s"
    unfolding e using c1 c4 by simp
  show "(sin ((y - x) / 2))\<^sup>2 + cos x * cos y * s \<le> 1"
    unfolding e using c2 c3 by simp
qed

lemma math_radians_diff: "math_radians (x - y) = math_radians x - math_radians y"
  by (simp add: math_radians_def left_diff_distrib)

lemma math_radians_swap: "math_radians (x - y) = - math_radians (y - x)"
  by (simp add: math_radians_diff)

text \<open>
  Over the reals \<open>a\<close> lies between 0 and 1, for all latitudes and longitudes, so
  neither square root raises. Floating-point rounding is not part of this model: there
  \<open>a\<close> can come out a little above 1 for two nearly antipodal points, and
  \<open>math.sqrt(1.0-a)\<close> raises \<open>ValueError\<close>. No statement below relies on the call
  returning except where it says so.
\<close>

lemma hav_a_bounds: "0 \<le> hav_a p q" "hav_a p q \<le> 1"
proof -
  let ?s = "(sin (math_radians (longitude q - longitude p) / 2))\<^sup>2"
  have s0: "0 \<le> ?s" by simp
  have s1: "?s \<le> 1" by (simp add: sin_squared_eq)
  show "0 \<le> hav_a p q"
    unfolding hav_a_def math_radians_diff[of "latitude q"]
    using hav_bounds_aux(1)[OF s0 s1] by simp
  show "hav_a p q \<le> 1"
    unfolding hav_a_def math_radians_diff[of "latitude q"]
    using hav_bounds_aux(2)[OF s0 s1] by simp
qed

lemma hav_a_sym: "hav_a p q = hav_a q p"
proof -
  have 1: "(sin (math_radians (latitude q - latitude p) / 2))\<^sup>2
         = (sin (math_radians (latitude p - latitude q) / 2))\<^sup>2"
    unfolding math_radians_swap[of "latitude q"] by simp
  have 2: "(sin (math_radians (longitude q - longitude p) / 2))\<^sup>2
         = (sin (math_radians (longitude p - longitude q) / 2))\<^sup>2"
    unfolding math_radians_swap[of "longitude q"] by simp
  show ?thesis unfolding hav_a_def 1 2 by (simp add: mult.commute)
qed

lemma haversine_distance_returns: "haversine_distance p q = Inr (great_circle p q)"
  using hav_a_bounds[of p q]
  by (simp add: haversine_distance_def Let_def math_sqrt_def great_circle_def hav_a_def)

lemma great_circle_same: "great_circle p p = 0"
  by (simp add: great_circle_def hav_a_def math_atan2_def math_radians_def)

lemma great_circle_nonneg: "0 \<le> great_circle p q"
  using hav_a_bounds[of p q]
  by (simp add: great_circle_def math_atan2_def earth_radius_def)

text \<open>
  Claim C7: the geodistance is symmetric. For all coordinates \<open>a\<close> and \<open>b\<close>,
  \<open>haversine_distance a b\<close> and \<open>haversine_distance b a\<close> are the same result (the same
  distance; no call raises). Floats are read as real numbers.
\<close>

theorem haversine_distance_symmetric:
  "haversine_distance a b = haversine_distance b a"
  by (simp add: haversine_distance_returns great_circle_def hav_a_sym[of a b])

section \<open>Properties of the nearest-station ranker\<close>

lemma stations_loop_appends:
  "stations_loop c event stations max_distance =
     Inr (event\<lparr>stations_with_slots :=
                  stations_with_slots event @ new_slots c stations max_distance,
                stations_with_bikes :=
                  stations_with_bikes event @ new_bikes c stations max_distance\<rparr>)"
proof (induction stations arbitrary: event)
  case Nil
  show ?case by (simp add: new_slots_def new_bikes_def)
next
  case (Cons station rest)
  show ?case
    by (simp add: Cons.IH haversine_distance_returns new_slots_def new_bikes_def)
qed

text \<open>
  With distances as real numbers no distance computation raises, and the ranker returns
  \<open>rank_event\<close> applied to each event. On floats a call of \<open>haversine_distance\<close> can
  raise; the statements below are about the calls of the ranker that return.
\<close>

lemma set_nearest_stations_map:
  "set_nearest_stations events stations max_distance =
     Inr (map (rank_event stations max_distance) events)"
proof (induction events)
  case Nil
  show ?case by simp
next
  case (Cons event events)
  show ?case
    by (cases "coords event") (simp_all add: Cons.IH rank_event_def stations_loop_appends)
qed

lemma nth_ranked:
  assumes "set_nearest_stations events stations D = Inr events'" "i < length events"
  shows "events' ! i = rank_event stations D (events ! i)"
  using assms by (auto simp: set_nearest_stations_map)

lemma new_slots_within: "e \<in> set (new_slots c stations D) \<Longrightarrow> snd e \<le> D \<and> 0 < slots (fst e)"
  by (auto simp: new_slots_def)

lemma new_bikes_within:
  "e \<in> set (new_bikes c stations D) \<Longrightarrow> snd e \<le> D \<and> \<not> 0 < slots (fst e) \<and> 0 < bikes (fst e)"
  by (auto simp: new_bikes_def)

lemma rank_event_slots:
  "coords event = Some c \<Longrightarrow>
   stations_with_slots (rank_event stations D event) =
     sort_key snd (stations_with_slots event @ new_slots c stations D)"
  by (simp add: rank_event_def)

lemma rank_event_bikes:
  "coords event = Some c \<Longrightarrow>
   stations_with_bikes (rank_event stations D event) =
     sort_key snd (stations_with_bikes event @ new_bikes c stations D)"
  by (simp add: rank_event_def)

lemma rank_event_coords: "coords (rank_event stations D event) = coords event"
  by (simp add: rank_event_def split: option.split)

lemma by_priority_Event_init: "by_priority (Event_init dt hr nm pl ad co)"
  by (simp add: by_priority_def Event_init_def)

text \<open>
  Events with no coordinates, by the equations of \<open>set_nearest_stations\<close> alone: nothing
  here depends on what \<open>haversine_distance\<close> returns or raises.
\<close>

lemma skip_unchanged:
  "set_nearest_stations events stations D = Inr events' \<Longrightarrow>
   length events' = length events
   \<and> (\<forall>i < length events. coords (events ! i) = None \<longrightarrow> events' ! i = events ! i)"
proof (induction events arbitrary: events')
  case Nil
  then show ?case by simp
next
  case (Cons event events)
  show ?case
  proof (cases "coords event")
    case None
    with Cons.prems obtain rest where
      r: "set_nearest_stations events stations D = Inr rest" and e: "events' = event # rest"
      by (auto split: sum.splits)
    from Cons.IH [OF r] e show ?thesis
      by (auto simp: nth_Cons split: nat.splits)
  next
    case (Some c)
    with Cons.prems obtain event' rest where
      r: "set_nearest_stations events stations D = Inr rest" and e: "events' = event' # rest"
      by (auto split: sum.splits)
    from Cons.IH [OF r] e Some show ?thesis
      by (auto simp: nth_Cons split: nat.splits)
  qed
qed

lemma skip_inserted:
  "coords ev = None \<Longrightarrow>
   set_nearest_stations (xs @ ev # ys) stations D =
     (case set_nearest_stations (xs @ ys) stations D of
        Inl e \<Rightarrow> Inl e
      | Inr r \<Rightarrow> Inr (take (length xs) r @ ev # drop (length xs) r))"
proof (induction xs)
  case Nil
  then show ?case by (simp split: sum.splits)
next
  case (Cons x xs)
  from Cons.IH [OF Cons.prems] show ?case
    by (simp split: option.splits sum.splits)
qed

lemma skip_all:
  "(\<forall>ev \<in> set events. coords ev = None) \<Longrightarrow> set_nearest_stations events stations D = Inr events"
  by (induction events) simp_all

subsection \<open>Concrete runs\<close>

lemma haversine_distance_same: "haversine_distance p p = Inr 0"
  by (simp add: haversine_distance_def Let_def math_sqrt_def math_atan2_def math_radians_def)

lemma haversine_distance_poles: "haversine_distance north_pole south_pole = Inr (earth_radius * pi)"
  by (simp add: north_pole_def south_pole_def haversine_distance_def Let_def math_sqrt_def
      math_atan2_def math_radians_def)

lemma pole_to_pole_bounds: "earth_radius * pi \<le> 30000000" "\<not> earth_radius * pi \<le> 300"
  using pi_less_4 pi_ge_two by (simp_all add: earth_radius_def)

lemma rank_polar_event:
  "set_nearest_stations [polar_event] [south_station] 30000000 = Inr [polar_ranked]"
  using pole_to_pole_bounds(1)
  by (simp add: polar_event_def polar_ranked_def Event_init_def south_station_def
      haversine_distance_poles)

lemma rank_polar_ranked:
  "set_nearest_stations [polar_ranked] [south_station] 300 = Inr [polar_ranked]"
  using pole_to_pole_bounds(2)
  by (simp add: polar_event_def polar_ranked_def Event_init_def south_station_def
      haversine_distance_poles)

lemma rank_concert:
  "set_nearest_stations [concert] [station_a, station_b, station_c] 300 = Inr [concert_ranked]"
  by (simp add: concert_def concert_ranked_def Event_init_def station_a_def station_b_def
      station_c_def haversine_distance_same)

lemma rank_concert_ranked:
  "set_nearest_stations [concert_ranked] [station_a, station_b, station_c] 300
   = Inr [concert_ranked_twice]"
  by (simp add: concert_def concert_ranked_def concert_ranked_twice_def Event_init_def
      station_a_def station_b_def station_c_def haversine_distance_same)

lemma radians_m90: "math_radians (- 90) / 2 = - (pi / 4)"
  by (simp add: math_radians_def)

lemma haversine_distance_pole_equator:
  "haversine_distance north_pole equator = Inr (earth_radius * (pi / 2))"
proof -
  have s: "(sin (math_radians (- 90) / 2))\<^sup>2 = 1 / 2"
    unfolding radians_m90 by (simp add: sin_45 power_divide)
  have c: "cos (math_radians 90) = 0"
    by (simp add: math_radians_def)
  have q: "sqrt (1 / 2) > 0"
    by simp
  have a: "math_atan2 (sqrt (1 / 2)) (sqrt (1 / 2)) = pi / 4"
    using q by (simp add: math_atan2_def arctan_one del: real_sqrt_gt_0_iff)
  show ?thesis
    unfolding haversine_distance_def Let_def north_pole_def equator_def
    by (simp add: s c math_sqrt_def a del: real_sqrt_gt_0_iff)
qed

lemma pi_ge_three: "3 \<le> pi"
proof -
  have "sin (pi / 6) \<le> pi / 6"
    by (rule sin_x_le_x) simp
  then show ?thesis
    by (simp add: sin_30)
qed

lemma quarter_bounds:
  "earth_radius * (pi / 2) \<le> 15000000" "\<not> earth_radius * pi \<le> 15000000"
  "\<not> earth_radius * (pi / 2) \<le> 0" "0 \<le> earth_radius * (pi / 2)"
  "\<not> earth_radius * pi \<le> 0" "earth_radius * pi \<le> 30000000"
  using pi_less_4 pi_ge_three by (simp_all add: earth_radius_def)

lemma rank_polar_wide:
  "set_nearest_stations [polar_event] polar_stations 15000000 = Inr [polar_ranked_wide]"
  by (simp add: polar_event_def polar_ranked_wide_def polar_stations_def Event_init_def
      station_equator_1_def station_equator_2_def station_north_def south_station_def
      station_equator_bikes_def station_north_bikes_def
      haversine_distance_poles haversine_distance_pole_equator haversine_distance_same
      quarter_bounds)

text \<open>
  The ranker appends and never removes. An event ranked a second time with a smaller
  distance, which \<open>main\<close> never does, keeps the entries of the first run: here an event
  at the north pole and a station at the south pole, first within 30000 km, then within
  300 m.
\<close>

lemma rank_again_keeps_far_entry:
  "set_nearest_stations [polar_event] [south_station] 30000000 = Inr [polar_ranked]
   \<and> set_nearest_stations [polar_ranked] [south_station] 300 = Inr [polar_ranked]
   \<and> coords polar_ranked = Some north_pole
   \<and> (south_station, earth_radius * pi) \<in> set (stations_with_slots polar_ranked)
   \<and> \<not> earth_radius * pi \<le> 300"
  using rank_polar_event rank_polar_ranked pole_to_pole_bounds(2)
  by (simp add: polar_ranked_def polar_event_def Event_init_def)

subsection \<open>The claims about the ranker\<close>

text \<open>
  Claim C3: after the ranker has run with \<open>max_distance = D\<close>, for every event with
  coordinates both lists are sorted ascending by distance, and the sort is stable: the
  entries at any one distance stand in the order in which they were appended, which for
  the entries of this run is the order of the station list. Every entry of both lists is
  at distance at most \<open>D\<close>, given that the list held no farther entry before the run.
  The events the pipeline ranks come from \<open>Event.fromElementTree\<close> and are ranked once:
  their lists are empty before the run, so the bound holds for all their entries.
\<close>

theorem set_nearest_stations_within_sorted:
  assumes "set_nearest_stations events stations D = Inr events'"
    and "i < length events"
    and "coords (events ! i) = Some c"
  shows "sorted (map snd (stations_with_slots (events' ! i)))
     \<and> sorted (map snd (stations_with_bikes (events' ! i)))
     \<and> (\<forall>k. filter (\<lambda>e. snd e = k) (stations_with_slots (events' ! i)) =
             filter (\<lambda>e. snd e = k) (stations_with_slots (events ! i) @ new_slots c stations D))
     \<and> (\<forall>k. filter (\<lambda>e. snd e = k) (stations_with_bikes (events' ! i)) =
             filter (\<lambda>e. snd e = k) (stations_with_bikes (events ! i) @ new_bikes c stations D))
     \<and> ((\<forall>e \<in> set (stations_with_slots (events ! i)). snd e \<le> D) \<longrightarrow>
          (\<forall>e \<in> set (stations_with_slots (events' ! i)). snd e \<le> D))
     \<and> ((\<forall>e \<in> set (stations_with_bikes (events ! i)). snd e \<le> D) \<longrightarrow>
          (\<forall>e \<in> set (stations_with_bikes (events' ! i)). snd e \<le> D))"
proof -
  let ?ev = "events ! i"
  have r: "events' ! i = rank_event stations D ?ev"
    using assms(1,2) by (rule nth_ranked)
  have s: "stations_with_slots (events' ! i) =
             sort_key snd (stations_with_slots ?ev @ new_slots c stations D)"
    unfolding r using assms(3) by (rule rank_event_slots)
  have b: "stations_with_bikes (events' ! i) =
             sort_key snd (stations_with_bikes ?ev @ new_bikes c stations D)"
    unfolding r using assms(3) by (rule rank_event_bikes)
  have 1: "sorted (map snd (stations_with_slots (events' ! i)))"
    unfolding s by (rule sorted_sort_key)
  have 2: "sorted (map snd (stations_with_bikes (events' ! i)))"
    unfolding b by (rule sorted_sort_key)
  have 3: "\<forall>k. filter (\<lambda>e. snd e = k) (stations_with_slots (events' ! i)) =
             filter (\<lambda>e. snd e = k) (stations_with_slots ?ev @ new_slots c stations D)"
    unfolding s by (simp only: sort_key_stable) simp
  have 4: "\<forall>k. filter (\<lambda>e. snd e = k) (stations_with_bikes (events' ! i)) =
             filter (\<lambda>e. snd e = k) (stations_with_bikes ?ev @ new_bikes c stations D)"
    unfolding b by (simp only: sort_key_stable) simp
  have 5: "\<forall>e \<in> set (stations_with_slots (events' ! i)). snd e \<le> D"
    if "\<forall>e \<in> set (stations_with_slots ?ev). snd e \<le> D"
    unfolding s using that new_slots_within by auto
  have 6: "\<forall>e \<in> set (stations_with_bikes (events' ! i)). snd e \<le> D"
    if "\<forall>e \<in> set (stations_with_bikes ?ev). snd e \<le> D"
    unfolding b using that new_bikes_within by auto
  from 1 2 3 4 5 6 show ?thesis by blast
qed

theorem set_nearest_stations_within_sorted_witness:
  "set_nearest_stations [polar_event] polar_stations 15000000 = Inr [polar_ranked_wide]
   \<and> coords ([polar_event] ! 0) = Some north_pole
   \<and> stations_with_slots ([polar_event] ! 0) = []
   \<and> stations_with_bikes ([polar_event] ! 0) = []
   \<and> stations_with_slots ([polar_ranked_wide] ! 0) =
        [(station_north, 0), (station_equator_1, earth_radius * (pi / 2)),
         (station_equator_2, earth_radius * (pi / 2))]
   \<and> stations_with_bikes ([polar_ranked_wide] ! 0) =
        [(station_north_bikes, 0), (station_equator_bikes, earth_radius * (pi / 2))]
   \<and> new_slots north_pole polar_stations 15000000 =
        [(station_equator_1, earth_radius * (pi / 2)),
         (station_equator_2, earth_radius * (pi / 2)), (station_north, 0)]
   \<and> sorted (map snd (stations_with_slots ([polar_ranked_wide] ! 0)))
   \<and> sorted (map snd (stations_with_bikes ([polar_ranked_wide] ! 0)))
   \<and> filter (\<lambda>e. snd e = earth_radius * (pi / 2)) (stations_with_slots ([polar_ranked_wide] ! 0)) =
        filter (\<lambda>e. snd e = earth_radius * (pi / 2))
          (stations_with_slots ([polar_event] ! 0) @ new_slots north_pole polar_stations 15000000)
   \<and> list_all (\<lambda>e. snd e \<le> 15000000) (stations_with_slots ([polar_ranked_wide] ! 0))
   \<and> list_all (\<lambda>e. snd e \<le> 15000000) (stations_with_bikes ([polar_ranked_wide] ! 0))
   \<and> \<not> earth_radius * pi \<le> 15000000"
proof -
  have h1: "set_nearest_stations [polar_event] polar_stations 15000000 = Inr [polar_ranked_wide]"
    by (rule rank_polar_wide)
  have h2: "0 < length [polar_event]"
    by simp
  have h3: "coords ([polar_event] ! 0) = Some north_pole"
    by (simp add: polar_event_def Event_init_def)
  have e: "stations_with_slots ([polar_event] ! 0) = []
      \<and> stations_with_bikes ([polar_event] ! 0) = []"
    by (simp add: polar_event_def Event_init_def)
  have v: "stations_with_slots ([polar_ranked_wide] ! 0) =
        [(station_north, 0), (station_equator_1, earth_radius * (pi / 2)),
         (station_equator_2, earth_radius * (pi / 2))]
      \<and> stations_with_bikes ([polar_ranked_wide] ! 0) =
        [(station_north_bikes, 0), (station_equator_bikes, earth_radius * (pi / 2))]"
    by (simp add: polar_ranked_wide_def)
  have g: "great_circle north_pole equator = earth_radius * (pi / 2)
      \<and> great_circle north_pole south_pole = earth_radius * pi"
    using haversine_distance_pole_equator haversine_distance_poles
    by (simp add: haversine_distance_returns)
  have n: "new_slots north_pole polar_stations 15000000 =
        [(station_equator_1, earth_radius * (pi / 2)),
         (station_equator_2, earth_radius * (pi / 2)), (station_north, 0)]"
    by (simp add: new_slots_def polar_stations_def station_equator_1_def station_equator_2_def
        station_north_def south_station_def station_equator_bikes_def station_north_bikes_def
        g great_circle_same quarter_bounds)
  have p1: "\<forall>e \<in> set (stations_with_slots ([polar_event] ! 0)). snd e \<le> 15000000"
    using e by simp
  have p2: "\<forall>e \<in> set (stations_with_bikes ([polar_event] ! 0)). snd e \<le> 15000000"
    using e by simp
  note c = set_nearest_stations_within_sorted [OF h1 h2 h3]
  from c have so: "sorted (map snd (stations_with_slots ([polar_ranked_wide] ! 0)))
      \<and> sorted (map snd (stations_with_bikes ([polar_ranked_wide] ! 0)))"
    by blast
  from c have st:
    "filter (\<lambda>e. snd e = earth_radius * (pi / 2)) (stations_with_slots ([polar_ranked_wide] ! 0)) =
        filter (\<lambda>e. snd e = earth_radius * (pi / 2))
          (stations_with_slots ([polar_event] ! 0) @ new_slots north_pole polar_stations 15000000)"
    by blast
  from c p1 p2 have bd:
    "(\<forall>e \<in> set (stations_with_slots ([polar_ranked_wide] ! 0)). snd e \<le> 15000000)
      \<and> (\<forall>e \<in> set (stations_with_bikes ([polar_ranked_wide] ! 0)). snd e \<le> 15000000)"
    by blast
  then have la: "list_all (\<lambda>e. snd e \<le> 15000000) (stations_with_slots ([polar_ranked_wide] ! 0))
      \<and> list_all (\<lambda>e. snd e \<le> 15000000) (stations_with_bikes ([polar_ranked_wide] ! 0))"
    by (simp only: list_all_iff)
  from h1 h3 e v n so st la quarter_bounds(2) show ?thesis
    by blast
qed

text \<open>
  Claim C4: slots first. The run appends to \<open>stations_with_slots\<close> exactly the stations in
  range with a free slot, to \<open>stations_with_bikes\<close> exactly the stations in range with no
  free slot and a bike; no station is appended to both lists, and a station with no slot
  and no bike is appended to neither. The classification of the lists is kept by every
  run, and under it no station stands in both lists of an event and no station without
  slot and bike stands in either.
\<close>

theorem set_nearest_stations_slots_first:
  assumes "set_nearest_stations events stations D = Inr events'"
    and "i < length events"
    and "coords (events ! i) = Some c"
  shows "stations_with_slots (events' ! i) =
           sort_key snd (stations_with_slots (events ! i) @ new_slots c stations D)
     \<and> stations_with_bikes (events' ! i) =
           sort_key snd (stations_with_bikes (events ! i) @ new_bikes c stations D)
     \<and> fst ` set (new_slots c stations D) \<inter> fst ` set (new_bikes c stations D) = {}
     \<and> (\<forall>s. slots s = 0 \<and> bikes s = 0 \<longrightarrow>
            s \<notin> fst ` set (new_slots c stations D) \<union> fst ` set (new_bikes c stations D))
     \<and> (by_priority (events ! i) \<longrightarrow>
          by_priority (events' ! i)
          \<and> fst ` set (stations_with_slots (events' ! i))
              \<inter> fst ` set (stations_with_bikes (events' ! i)) = {}
          \<and> (\<forall>s. slots s = 0 \<and> bikes s = 0 \<longrightarrow>
                s \<notin> fst ` set (stations_with_slots (events' ! i))
                    \<union> fst ` set (stations_with_bikes (events' ! i))))"
proof -
  let ?ev = "events ! i"
  have r: "events' ! i = rank_event stations D ?ev"
    using assms(1,2) by (rule nth_ranked)
  have s: "stations_with_slots (events' ! i) =
             sort_key snd (stations_with_slots ?ev @ new_slots c stations D)"
    unfolding r using assms(3) by (rule rank_event_slots)
  have b: "stations_with_bikes (events' ! i) =
             sort_key snd (stations_with_bikes ?ev @ new_bikes c stations D)"
    unfolding r using assms(3) by (rule rank_event_bikes)
  have d: "fst ` set (new_slots c stations D) \<inter> fst ` set (new_bikes c stations D) = {}"
    by (auto simp: new_slots_def new_bikes_def)
  have z: "\<forall>s. slots s = 0 \<and> bikes s = 0 \<longrightarrow>
            s \<notin> fst ` set (new_slots c stations D) \<union> fst ` set (new_bikes c stations D)"
    using new_slots_within new_bikes_within by fastforce
  have p: "by_priority (events' ! i)" if "by_priority ?ev"
    using that new_slots_within new_bikes_within
    unfolding by_priority_def s b by (auto simp: list_all_iff)
  have q: "fst ` set (stations_with_slots e) \<inter> fst ` set (stations_with_bikes e) = {}
      \<and> (\<forall>s. slots s = 0 \<and> bikes s = 0 \<longrightarrow>
            s \<notin> fst ` set (stations_with_slots e) \<union> fst ` set (stations_with_bikes e))"
    if "by_priority e" for e
    using that unfolding by_priority_def by (fastforce simp: list_all_iff)
  from s b d z p q [of "events' ! i"] show ?thesis by blast
qed

theorem set_nearest_stations_slots_first_witness:
  "set_nearest_stations [concert] [station_a, station_b, station_c] 300 = Inr [concert_ranked]
   \<and> coords ([concert] ! 0) = Some barcelona
   \<and> by_priority ([concert] ! 0)
   \<and> stations_with_slots ([concert_ranked] ! 0) = [(station_a, 0)]
   \<and> stations_with_bikes ([concert_ranked] ! 0) = [(station_b, 0)]
   \<and> new_slots barcelona [station_a, station_b, station_c] 300 = [(station_a, 0)]
   \<and> new_bikes barcelona [station_a, station_b, station_c] 300 = [(station_b, 0)]
   \<and> by_priority ([concert_ranked] ! 0)
   \<and> fst ` set (stations_with_slots ([concert_ranked] ! 0))
       \<inter> fst ` set (stations_with_bikes ([concert_ranked] ! 0)) = {}"
proof -
  have h1: "set_nearest_stations [concert] [station_a, station_b, station_c] 300
            = Inr [concert_ranked]"
    by (rule rank_concert)
  have h2: "0 < length [concert]"
    by simp
  have h3: "coords ([concert] ! 0) = Some barcelona"
    by (simp add: concert_def Event_init_def)
  have h4: "by_priority ([concert] ! 0)"
    by (simp add: concert_def by_priority_Event_init)
  have n: "new_slots barcelona [station_a, station_b, station_c] 300 = [(station_a, 0)]
      \<and> new_bikes barcelona [station_a, station_b, station_c] 300 = [(station_b, 0)]"
    by (simp add: new_slots_def new_bikes_def station_a_def station_b_def station_c_def
        great_circle_same)
  have v: "stations_with_slots ([concert_ranked] ! 0) = [(station_a, 0)]
      \<and> stations_with_bikes ([concert_ranked] ! 0) = [(station_b, 0)]"
    by (simp add: concert_ranked_def)
  from set_nearest_stations_slots_first [OF h1 h2 h3] h1 h3 h4 n v show ?thesis
    by blast
qed

text \<open>
  Claim C8: an event with no coordinates is skipped, and skipping it raises nothing.
  Whenever the ranker returns, the events keep their positions and every event with no
  coordinates is returned as it was, its two lists included, for any stations and any
  maximal distance. The outcome of a run on a list that holds such an event is the
  outcome of the run on the list without it, an exception included, with the event put
  back unchanged at its position. A list of events that all lack coordinates is returned
  as it is.
\<close>

theorem set_nearest_stations_skips_no_coords:
  "(set_nearest_stations events stations D = Inr events' \<longrightarrow>
      length events' = length events
      \<and> (\<forall>i < length events. coords (events ! i) = None \<longrightarrow> events' ! i = events ! i))
   \<and> (coords ev = None \<longrightarrow>
        set_nearest_stations (xs @ ev # ys) stations D =
          (case set_nearest_stations (xs @ ys) stations D of
             Inl e \<Rightarrow> Inl e
           | Inr r \<Rightarrow> Inr (take (length xs) r @ ev # drop (length xs) r)))
   \<and> ((\<forall>e \<in> set events. coords e = None) \<longrightarrow>
        set_nearest_stations events stations D = Inr events)"
  using skip_unchanged [of events stations D events'] skip_inserted [of ev xs ys stations D]
    skip_all [of events stations D]
  by blast

theorem set_nearest_stations_skips_no_coords_witness:
  "set_nearest_stations [festa_major, concert] [station_a, station_b, station_c] 300
     = Inr [festa_major, concert_ranked]
   \<and> coords ([festa_major, concert] ! 0) = None
   \<and> [festa_major, concert_ranked] ! 0 = [festa_major, concert] ! 0
   \<and> stations_with_slots ([festa_major, concert_ranked] ! 0) = []
   \<and> stations_with_bikes ([festa_major, concert_ranked] ! 0) = []
   \<and> coords sant_jordi = None
   \<and> set_nearest_stations ([concert] @ sant_jordi # [festa_major])
          [station_a, station_b, station_c] 300
       = Inr [concert_ranked, sant_jordi, festa_major]
   \<and> set_nearest_stations [festa_major, sant_jordi] [station_a, south_station] 300
       = Inr [festa_major, sant_jordi]"
proof -
  have n: "coords festa_major = None \<and> coords sant_jordi = None"
    by (simp add: festa_major_def sant_jordi_def Event_init_def)
  have e: "stations_with_slots festa_major = [] \<and> stations_with_bikes festa_major = []"
    by (simp add: festa_major_def Event_init_def)
  have h1: "set_nearest_stations [festa_major, concert] [station_a, station_b, station_c] 300
            = Inr [festa_major, concert_ranked]"
    using n rank_concert by simp
  have h2: "set_nearest_stations ([concert] @ [festa_major]) [station_a, station_b, station_c] 300
            = Inr [concert_ranked, festa_major]"
    by (simp add: concert_def concert_ranked_def festa_major_def Event_init_def station_a_def
        station_b_def station_c_def haversine_distance_same)
  have h3: "\<forall>e \<in> set [festa_major, sant_jordi]. coords e = None"
    using n by simp
  note t = set_nearest_stations_skips_no_coords
             [of "[festa_major, concert]" "[station_a, station_b, station_c]" 300
                 "[festa_major, concert_ranked]" sant_jordi "[concert]" "[festa_major]"]
  from t h1 n have a: "[festa_major, concert_ranked] ! 0 = [festa_major, concert] ! 0"
    by simp
  note u = mp [OF conjunct1 [OF conjunct2 [OF t]] conjunct2 [OF n]]
  have b: "set_nearest_stations ([concert] @ sant_jordi # [festa_major])
          [station_a, station_b, station_c] 300
       = Inr [concert_ranked, sant_jordi, festa_major]"
    unfolding u h2 by simp
  from set_nearest_stations_skips_no_coords
         [of "[festa_major, sant_jordi]" "[station_a, south_station]" 300] h3
  have c: "set_nearest_stations [festa_major, sant_jordi] [station_a, south_station] 300
       = Inr [festa_major, sant_jordi]"
    by blast
  from h1 n e a b c show ?thesis
    by simp
qed

text \<open>
  Claim C9: the ranker appends and never clears. After one run the lists of an event with
  coordinates are the old entries and the new ones, sorted together, so every old entry
  is still there; after a second run with the same stations the new entries are there
  twice.
\<close>

theorem set_nearest_stations_only_appends:
  assumes "set_nearest_stations events stations D = Inr events1"
    and "set_nearest_stations events1 stations D = Inr events2"
    and "i < length events"
    and "coords (events ! i) = Some c"
  shows "stations_with_slots (events1 ! i) =
           sort_key snd (stations_with_slots (events ! i) @ new_slots c stations D)
     \<and> stations_with_bikes (events1 ! i) =
           sort_key snd (stations_with_bikes (events ! i) @ new_bikes c stations D)
     \<and> mset (stations_with_slots (events ! i)) \<subseteq># mset (stations_with_slots (events1 ! i))
     \<and> mset (stations_with_bikes (events ! i)) \<subseteq># mset (stations_with_bikes (events1 ! i))
     \<and> mset (stations_with_slots (events2 ! i)) =
           mset (stations_with_slots (events ! i))
           + mset (new_slots c stations D) + mset (new_slots c stations D)
     \<and> mset (stations_with_bikes (events2 ! i)) =
           mset (stations_with_bikes (events ! i))
           + mset (new_bikes c stations D) + mset (new_bikes c stations D)"
proof -
  let ?ev = "events ! i"
  have l: "length events1 = length events"
    using assms(1) by (auto simp: set_nearest_stations_map)
  have r1: "events1 ! i = rank_event stations D ?ev"
    using assms(1,3) by (rule nth_ranked)
  have r2: "events2 ! i = rank_event stations D (events1 ! i)"
    using assms(2) assms(3) l by (simp add: nth_ranked)
  have c1: "coords (events1 ! i) = Some c"
    unfolding r1 rank_event_coords by (rule assms(4))
  have s1: "stations_with_slots (events1 ! i) =
             sort_key snd (stations_with_slots ?ev @ new_slots c stations D)"
    unfolding r1 using assms(4) by (rule rank_event_slots)
  have b1: "stations_with_bikes (events1 ! i) =
             sort_key snd (stations_with_bikes ?ev @ new_bikes c stations D)"
    unfolding r1 using assms(4) by (rule rank_event_bikes)
  have s2: "stations_with_slots (events2 ! i) =
             sort_key snd (stations_with_slots (events1 ! i) @ new_slots c stations D)"
    unfolding r2 using c1 by (rule rank_event_slots)
  have b2: "stations_with_bikes (events2 ! i) =
             sort_key snd (stations_with_bikes (events1 ! i) @ new_bikes c stations D)"
    unfolding r2 using c1 by (rule rank_event_bikes)
  have m1: "mset (stations_with_slots ?ev) \<subseteq># mset (stations_with_slots (events1 ! i))"
    unfolding s1 by simp
  have m2: "mset (stations_with_bikes ?ev) \<subseteq># mset (stations_with_bikes (events1 ! i))"
    unfolding b1 by simp
  have t1: "mset (stations_with_slots (events2 ! i)) =
           mset (stations_with_slots ?ev)
           + mset (new_slots c stations D) + mset (new_slots c stations D)"
    unfolding s2 by (simp add: s1)
  have t2: "mset (stations_with_bikes (events2 ! i)) =
           mset (stations_with_bikes ?ev)
           + mset (new_bikes c stations D) + mset (new_bikes c stations D)"
    unfolding b2 by (simp add: b1)
  from s1 b1 m1 m2 t1 t2 show ?thesis by blast
qed

theorem set_nearest_stations_only_appends_witness:
  "set_nearest_stations [concert] [station_a, station_b, station_c] 300 = Inr [concert_ranked]
   \<and> set_nearest_stations [concert_ranked] [station_a, station_b, station_c] 300
       = Inr [concert_ranked_twice]
   \<and> coords ([concert] ! 0) = Some barcelona
   \<and> stations_with_slots ([concert_ranked] ! 0) = [(station_a, 0)]
   \<and> stations_with_slots ([concert_ranked_twice] ! 0) = [(station_a, 0), (station_a, 0)]
   \<and> stations_with_bikes ([concert_ranked_twice] ! 0) = [(station_b, 0), (station_b, 0)]
   \<and> mset (stations_with_slots ([concert_ranked_twice] ! 0)) =
        mset (stations_with_slots ([concert] ! 0))
        + mset (new_slots barcelona [station_a, station_b, station_c] 300)
        + mset (new_slots barcelona [station_a, station_b, station_c] 300)"
proof -
  have h1: "set_nearest_stations [concert] [station_a, station_b, station_c] 300
            = Inr [concert_ranked]"
    by (rule rank_concert)
  have h2: "set_nearest_stations [concert_ranked] [station_a, station_b, station_c] 300
            = Inr [concert_ranked_twice]"
    by (rule rank_concert_ranked)
  have h3: "0 < length [concert]"
    by simp
  have h4: "coords ([concert] ! 0) = Some barcelona"
    by (simp add: concert_def Event_init_def)
  have v: "stations_with_slots ([concert_ranked] ! 0) = [(station_a, 0)]
      \<and> stations_with_slots ([concert_ranked_twice] ! 0) = [(station_a, 0), (station_a, 0)]
      \<and> stations_with_bikes ([concert_ranked_twice] ! 0) = [(station_b, 0), (station_b, 0)]"
    by (simp add: concert_ranked_def concert_ranked_twice_def)
  from set_nearest_stations_only_appends [OF h1 h2 h3 h4] h1 h2 h4 v show ?thesis
    by blast
qed

section \<open>Properties of the pipeline\<close>

lemma find_monthly_loop_filter:
  "find_monthly_loop feed search_terms dt res =
     res @ filter (\<lambda>e. date e = dt \<and> check_event e search_terms) (map Event_fromElementTree feed)"
  by (induction feed arbitrary: res) (simp_all add: Let_def)

lemma find_today_loop_filter:
  "find_today_loop feed search_terms res =
     res @ filter (\<lambda>e. check_event e search_terms) (map Event_fromElementTree feed)"
  by (induction feed arbitrary: res) (simp_all add: Let_def)

text \<open>
  Claim C5: when a date is given, the events handed to the renderer are exactly the
  events of the monthly feed whose date is the given date and which match the search
  terms, in the order of the feed. The ranker does not run: both lists of every returned
  event are empty, and the result depends neither on the stations nor on the distance.
\<close>

theorem main_specific_date:
  "date_arg args = Some dt \<Longrightarrow>
   main args feeds =
     Inr (filter (\<lambda>e. date e = dt \<and> check_event e (key args))
            (map Event_fromElementTree (monthly_feed feeds)))
   \<and> list_all (\<lambda>e. stations_with_bikes e = [] \<and> stations_with_slots e = [])
        (filter (\<lambda>e. date e = dt \<and> check_event e (key args))
           (map Event_fromElementTree (monthly_feed feeds)))
   \<and> main (args\<lparr>distance := n\<rparr>) (feeds\<lparr>today_feed := t, bicing_feed := b\<rparr>) = main args feeds"
  by (auto simp: main_def find_monthly_events_def find_monthly_loop_filter list_all_iff
      Event_fromElementTree_def Event_init_def)

theorem main_specific_date_witness:
  "date_arg date_args = Some (Date 23 6 2018)
   \<and> main date_args sample_feeds =
       Inr [Event_fromElementTree acte_festa, Event_fromElementTree acte_concert]
   \<and> stations_with_slots (Event_fromElementTree acte_festa) = []
   \<and> stations_with_bikes (Event_fromElementTree acte_festa) = []
   \<and> stations_with_slots (Event_fromElementTree acte_concert) = []
   \<and> stations_with_bikes (Event_fromElementTree acte_concert) = []"
proof -
  have h: "date_arg date_args = Some (Date 23 6 2018)"
    by (simp add: date_args_def)
  have f: "filter (\<lambda>e. date e = Date 23 6 2018 \<and> check_event e (key date_args))
             (map Event_fromElementTree (monthly_feed sample_feeds))
           = [Event_fromElementTree acte_festa, Event_fromElementTree acte_concert]"
    by (simp add: date_args_def sample_feeds_def Event_fromElementTree_def Event_init_def
        acte_festa_def acte_fira_def acte_festa_later_def acte_concert_def)
  from main_specific_date [OF h, of sample_feeds] h show ?thesis
    unfolding f by simp
qed

end
